theory Spec2Isabelle
  imports Main
begin

section \<open>Finite Drinfeld modules: the data the code inspects\<close>

text \<open>
  The module \<^verbatim>\<open>sage/modules/finite_drinfeld_module.py\<close> validates a polynomial ring
  and an Ore polynomial, stores them as a ring homomorphism, and derives an action.
  The rings, fields and Ore polynomials are objects of the surrounding library; they are
  modelled here by exactly the attributes the code queries.
\<close>

datatype error = TypeError string | ValueError string

text \<open>
  A ring object, as far as the code looks at it: \<^verbatim>\<open>is_field()\<close>, \<^verbatim>\<open>is_finite()\<close>,
  \<^verbatim>\<open>degree()\<close>, and the characteristic that its Frobenius endomorphism raises to.
  \<^verbatim>\<open>A.is_subring(B)\<close> relates two ring objects and is decided by the library's coercion
  system; every function that calls it takes it as the parameter \<open>is_subring\<close>.
\<close>

record ring =
  ring_name :: string
  is_field :: bool
  is_finite :: bool
  characteristic :: nat
  degree :: nat

text \<open>The polynomial ring argument: its base ring, and what
  \<^verbatim>\<open>isinstance(polring, PolynomialRing_dense_finite_field)\<close> evaluates to.\<close>

record polynomial_ring =
  is_PolynomialRing_dense_finite_field :: bool
  pr_base_ring :: ring

text \<open>A Frobenius endomorphism exposes its \<^verbatim>\<open>power()\<close>.\<close>

record morphism =
  frobenius_power :: nat

datatype derivation = Derivation string

record ore_polynomial_ring =
  ore_base_ring :: ring
  twisting_morphism :: morphism
  twisting_derivation :: "derivation option"
  variable_names :: string

text \<open>A dense Ore polynomial: its parent ring and the coefficients of
  \<open>\<tau>^0, \<tau>^1, \<dots>\<close> in the base field, whose elements have type \<open>'a\<close>.\<close>

record 'a ore_polynomial =
  parent :: ore_polynomial_ring
  coefficients :: "'a list"

text \<open>What a caller can pass as \<^verbatim>\<open>gen\<close>: an Ore polynomial, or any other object.\<close>

datatype 'a gen_arg = OrePolynomial "'a ore_polynomial" | OtherObject string

text \<open>Modelled from the spec: \<^verbatim>\<open>degree()\<close> and \<^verbatim>\<open>is_constant()\<close> of an Ore polynomial
  are library methods. The degree in \<open>\<tau>\<close> is the index of the last non-zero coefficient
  (\<open>-1\<close> for the zero polynomial), and a generator "is not constant" when its degree in
  \<open>\<tau>\<close> is at least 1: a polynomial is constant when its degree is at most 0.\<close>

fun strip_zeros :: "'a::zero list \<Rightarrow> 'a list" where
  "strip_zeros [] = []"
| "strip_zeros (c # cs) =
     (let r = strip_zeros cs in if r = [] \<and> c = 0 then [] else c # r)"

definition ore_degree :: "'a::zero ore_polynomial \<Rightarrow> int" where
  "ore_degree f = int (length (strip_zeros (coefficients f))) - 1"

definition is_constant :: "'a::zero ore_polynomial \<Rightarrow> bool" where
  "is_constant f = (ore_degree f \<le> 0)"

text \<open>The constructed object: a \<^verbatim>\<open>RingHomomorphism_im_gens\<close> keeps its domain, its
  codomain and the list of images of the generators.\<close>

record 'a FiniteDrinfeldModule =
  domain :: polynomial_ring
  codomain :: ore_polynomial_ring
  im_gens :: "'a ore_polynomial list"

section \<open>Validation\<close>

definition check_base_fields :: "(ring \<Rightarrow> ring \<Rightarrow> bool) \<Rightarrow> ring \<Rightarrow> ring \<Rightarrow> error + unit" where
  "check_base_fields is_subring Fq L =
     (if \<not> (is_field L \<and> is_finite L \<and> is_subring Fq L)
      then Inl (ValueError (''The base field of the Ore polynomial ring must '' @
                            ''be a finite field extension of the base field of the '' @
                            ''polynomial ring''))
      else Inr ())"

text \<open>\<^verbatim>\<open>FiniteDrinfeldModule.__init__\<close>. The \<^verbatim>\<open>isinstance\<close> test on \<^verbatim>\<open>polring\<close> is an
  expression statement: it is evaluated (\<open>let _ = \<dots>\<close>) and its value is dropped.
  \<^verbatim>\<open>super().__init__(Hom(FqX, Ltau), gen)\<close> stores the domain, the codomain and \<open>[gen]\<close>.\<close>

definition FiniteDrinfeldModule_init ::
  "(ring \<Rightarrow> ring \<Rightarrow> bool) \<Rightarrow> polynomial_ring \<Rightarrow> 'a::zero gen_arg \<Rightarrow> error + 'a FiniteDrinfeldModule" where
  "FiniteDrinfeldModule_init is_subring polring gen_obj =
     (let _ = is_PolynomialRing_dense_finite_field polring in
      case gen_obj of
        OtherObject _ \<Rightarrow> Inl (TypeError ''The generator must be an Ore polynomial'')
      | OrePolynomial gen \<Rightarrow>
          (let FqX = polring;
               Ltau = parent gen;
               Fq = pr_base_ring FqX;
               L = ore_base_ring Ltau
           in case check_base_fields is_subring Fq L of
                Inl e \<Rightarrow> Inl e
              | Inr _ \<Rightarrow>
                  if twisting_derivation Ltau \<noteq> None
                  then Inl (ValueError (''The Ore polynomial ring should have no '' @
                                        ''derivation''))
                  else if frobenius_power (twisting_morphism Ltau) \<noteq> degree Fq
                  then Inl (ValueError (''The twisting morphism of the Ore polynomial '' @
                                        ''ring must be the Frobenius endomorphism of the base '' @
                                        ''field of the polynomial ring''))
                  else if is_constant gen
                  then Inl (ValueError ''The generator must not be constant'')
                  else Inr \<lparr>domain = FqX, codomain = Ltau, im_gens = [gen]\<rparr>))"

subsection \<open>Getters\<close>

definition polring :: "'a FiniteDrinfeldModule \<Rightarrow> polynomial_ring" where
  "polring self = domain self"

definition ore_polring :: "'a FiniteDrinfeldModule \<Rightarrow> ore_polynomial_ring" where
  "ore_polring self = codomain self"

definition frobenius :: "'a FiniteDrinfeldModule \<Rightarrow> morphism" where
  "frobenius self = twisting_morphism (ore_polring self)"

text \<open>\<^verbatim>\<open>[gen] = self.im_gens()\<close> raises \<^verbatim>\<open>ValueError\<close> unless the list has one element.\<close>

definition gen :: "'a FiniteDrinfeldModule \<Rightarrow> error + 'a ore_polynomial" where
  "gen self =
     (case im_gens self of
        [g] \<Rightarrow> Inr g
      | _ \<Rightarrow> Inl (ValueError ''unpack''))"

definition rank :: "'a::zero FiniteDrinfeldModule \<Rightarrow> error + int" where
  "rank self = (case gen self of Inl e \<Rightarrow> Inl e | Inr g \<Rightarrow> Inr (ore_degree g))"

section \<open>Change of base field\<close>

text \<open>Modelled from the spec: \<^verbatim>\<open>R.frobenius_endomorphism(n)\<close>, \<^verbatim>\<open>OrePolynomialRing(R, twist, names)\<close>
  and the conversion \<^verbatim>\<open>new_ore_polring(gen)\<close> are library calls. The new ring is built over \<open>R\<close>
  with the same twist power and no derivation, and the generator's coefficients are
  re-embedded into \<open>R\<close> by the canonical field embedding \<open>emb\<close>.\<close>

definition frobenius_endomorphism :: "ring \<Rightarrow> nat \<Rightarrow> morphism" where
  "frobenius_endomorphism R n = \<lparr>frobenius_power = n\<rparr>"

definition OrePolynomialRing :: "ring \<Rightarrow> morphism \<Rightarrow> string \<Rightarrow> ore_polynomial_ring" where
  "OrePolynomialRing R twist names =
     \<lparr>ore_base_ring = R, twisting_morphism = twist, twisting_derivation = None,
      variable_names = names\<rparr>"

definition convert :: "('a \<Rightarrow> 'b) \<Rightarrow> ore_polynomial_ring \<Rightarrow> 'a ore_polynomial \<Rightarrow> 'b ore_polynomial" where
  "convert emb Rtau f = \<lparr>parent = Rtau, coefficients = map emb (coefficients f)\<rparr>"

definition change_ring ::
  "(ring \<Rightarrow> ring \<Rightarrow> bool) \<Rightarrow> ('a \<Rightarrow> 'b::zero) \<Rightarrow> 'a FiniteDrinfeldModule \<Rightarrow> ring
     \<Rightarrow> error + 'b FiniteDrinfeldModule" where
  "change_ring is_subring emb self R =
     (if \<not> is_field R \<and> is_finite R
      then Inl (TypeError ''Argument must be a finite field'')
      else if \<not> is_subring (ore_base_ring (ore_polring self)) R
      then Inl (ValueError (''The new field must be a finite field '' @
                            ''extension of the base field of the Ore polynomial ring.''))
      else case check_base_fields is_subring (pr_base_ring (polring self)) R of
             Inl e \<Rightarrow> Inl e
           | Inr _ \<Rightarrow>
               (let new_frobenius = frobenius_endomorphism R (frobenius_power (frobenius self));
                    new_ore_polring =
                      OrePolynomialRing R new_frobenius (variable_names (ore_polring self))
                in case gen self of
                     Inl e \<Rightarrow> Inl e
                   | Inr g \<Rightarrow>
                       FiniteDrinfeldModule_init is_subring (polring self)
                         (OrePolynomial (convert emb new_ore_polring g))))"

section \<open>The action\<close>

text \<open>What a caller can pass to the action's constructor.\<close>

datatype 'a py_object = DrinfeldModuleObject "'a FiniteDrinfeldModule" | ForeignObject string

text \<open>An \<^verbatim>\<open>Action\<close> keeps the two arguments of its constructor: what acts (\<open>actor\<close>) and the
  set acted upon (\<open>underlying_set\<close>).\<close>

record 'a FiniteDrinfeldModuleAction =
  finite_drinfeld_module :: "'a FiniteDrinfeldModule"
  actor :: polynomial_ring
  underlying_set :: ring

definition FiniteDrinfeldModuleAction_init ::
  "'a py_object \<Rightarrow> error + 'a FiniteDrinfeldModuleAction" where
  "FiniteDrinfeldModuleAction_init obj =
     (case obj of
        ForeignObject _ \<Rightarrow> Inl (TypeError ''First argument must be a FiniteDrinfeldModule'')
      | DrinfeldModuleObject m \<Rightarrow>
          Inr \<lparr>finite_drinfeld_module = m, actor = polring m,
               underlying_set = ore_base_ring (ore_polring m)\<rparr>)"

definition get_action :: "'a FiniteDrinfeldModule \<Rightarrow> error + 'a FiniteDrinfeldModuleAction" where
  "get_action self = FiniteDrinfeldModuleAction_init (DrinfeldModuleObject self)"

subsection \<open>Ore polynomial arithmetic\<close>

text \<open>Modelled from the spec: the arithmetic of the Ore polynomial ring, the application of
  the ring homomorphism and the evaluation of an Ore polynomial at a field element are
  library code. The twist of the ring is the Frobenius power \<open>x \<mapsto> x^(p^k)\<close>, with \<open>p\<close> the
  characteristic of the base field and \<open>k\<close> the power of the twisting morphism; the product
  is twisted, \<open>(a \<tau>^i) (b \<tau>^j) = a \<sigma>^i(b) \<tau>^(i+j)\<close>; the homomorphism sends \<open>\<Sum> c_i X^i\<close> to
  \<open>\<Sum> c_i gen^i\<close>; and \<open>\<Sum> a_i \<tau>^i\<close> acts on \<open>x\<close> as \<open>\<Sum> a_i \<sigma>^i(x)\<close>.\<close>

definition twist :: "ore_polynomial_ring \<Rightarrow> 'a::comm_ring_1 \<Rightarrow> 'a" where
  "twist Ltau x =
     x ^ (characteristic (ore_base_ring Ltau) ^ frobenius_power (twisting_morphism Ltau))"

fun padd :: "'a::comm_ring_1 list \<Rightarrow> 'a list \<Rightarrow> 'a list" where
  "padd [] bs = bs"
| "padd as [] = as"
| "padd (a # as) (b # bs) = (a + b) # padd as bs"

definition smult :: "'a::comm_ring_1 \<Rightarrow> 'a list \<Rightarrow> 'a list" where
  "smult c as = map (\<lambda>a. c * a) as"

definition shift_twist :: "('a::comm_ring_1 \<Rightarrow> 'a) \<Rightarrow> 'a list \<Rightarrow> 'a list" where
  "shift_twist \<sigma> bs = 0 # map \<sigma> bs"

fun ore_mult :: "('a::comm_ring_1 \<Rightarrow> 'a) \<Rightarrow> 'a list \<Rightarrow> 'a list \<Rightarrow> 'a list" where
  "ore_mult \<sigma> [] bs = []"
| "ore_mult \<sigma> (a # as) bs = padd (smult a bs) (ore_mult \<sigma> as (shift_twist \<sigma> bs))"

fun ore_pow :: "('a::comm_ring_1 \<Rightarrow> 'a) \<Rightarrow> 'a list \<Rightarrow> nat \<Rightarrow> 'a list" where
  "ore_pow \<sigma> f 0 = [1]"
| "ore_pow \<sigma> f (Suc n) = ore_mult \<sigma> (ore_pow \<sigma> f n) f"

fun hom_sum :: "('a::comm_ring_1 \<Rightarrow> 'a) \<Rightarrow> 'a list \<Rightarrow> nat \<Rightarrow> 'a list \<Rightarrow> 'a list" where
  "hom_sum \<sigma> f i [] = []"
| "hom_sum \<sigma> f i (c # cs) = padd (smult c (ore_pow \<sigma> f i)) (hom_sum \<sigma> f (Suc i) cs)"

fun operator_eval :: "('a::comm_ring_1 \<Rightarrow> 'a) \<Rightarrow> 'a list \<Rightarrow> 'a \<Rightarrow> 'a" where
  "operator_eval \<sigma> [] x = 0"
| "operator_eval \<sigma> (a # as) x = a * x + operator_eval \<sigma> as (\<sigma> x)"

text \<open>\<^verbatim>\<open>phi(g)\<close>: the image of the polynomial with coefficient list \<open>g\<close>, an element of the
  codomain.\<close>

definition call_module ::
  "'a::comm_ring_1 FiniteDrinfeldModule \<Rightarrow> 'a list \<Rightarrow> error + 'a ore_polynomial" where
  "call_module self g =
     (case gen self of
        Inl e \<Rightarrow> Inl e
      | Inr f \<Rightarrow>
          Inr \<lparr>parent = codomain self,
               coefficients = hom_sum (twist (codomain self)) (coefficients f) 0 g\<rparr>)"

text \<open>\<^verbatim>\<open>f(x)\<close> for an Ore polynomial \<open>f\<close>.\<close>

definition call_ore_polynomial :: "'a::comm_ring_1 ore_polynomial \<Rightarrow> 'a \<Rightarrow> 'a" where
  "call_ore_polynomial f x = operator_eval (twist (parent f)) (coefficients f) x"

text \<open>\<^verbatim>\<open>FiniteDrinfeldModuleAction._act_\<close>.\<close>

definition act :: "'a::comm_ring_1 FiniteDrinfeldModuleAction \<Rightarrow> 'a list \<Rightarrow> 'a \<Rightarrow> error + 'a" where
  "act self g x =
     (case call_module (finite_drinfeld_module self) g of
        Inl e \<Rightarrow> Inl e
      | Inr phi_g \<Rightarrow> Inr (call_ore_polynomial phi_g x))"

text \<open>Addition, multiplication and the unit of the polynomial ring \<open>Fq[X]\<close>, on
  coefficient lists.\<close>

fun poly_mult :: "'a::comm_ring_1 list \<Rightarrow> 'a list \<Rightarrow> 'a list" where
  "poly_mult [] bs = []"
| "poly_mult (a # as) bs = padd (smult a bs) (0 # poly_mult as bs)"

definition poly_one :: "'a::comm_ring_1 list" where
  "poly_one = [1]"

section \<open>The statement of the action, in the words of the specification\<close>

text \<open>Modelled from the spec: a finite field of characteristic \<open>p\<close> and degree \<open>d\<close> has
  \<open>p^d\<close> elements, and the elements of an extension that lie in the subfield of order \<open>q\<close>
  are those fixed by \<open>x \<mapsto> x^q\<close>.\<close>

definition order :: "ring \<Rightarrow> nat" where
  "order F = characteristic F ^ degree F"

definition in_subfield :: "ring \<Rightarrow> 'a::comm_ring_1 \<Rightarrow> bool" where
  "in_subfield F c = (c ^ order F = c)"

definition is_prime :: "nat \<Rightarrow> bool" where
  "is_prime p = (1 < p \<and> (\<forall>m\<in>{2..<p}. \<not> m dvd p))"

text \<open>The image \<open>\<Sum> c_i gen^i\<close> of \<open>\<Sum> c_i X^i\<close>, written as the sum it is, with powers and sums
  taken in the ring twisted by \<open>y \<mapsto> y^q\<close>; and the value \<open>\<Sum> a_i x^(q^i)\<close> of \<open>\<Sum> a_i \<tau>^i\<close> at
  \<open>x\<close>.\<close>

definition spec_image :: "nat \<Rightarrow> 'a::comm_ring_1 list \<Rightarrow> 'a list \<Rightarrow> 'a list" where
  "spec_image q f g =
     foldr padd (map (\<lambda>i. smult (g ! i) (ore_pow (\<lambda>y. y ^ q) f i)) [0..<length g]) []"

definition spec_evaluate :: "nat \<Rightarrow> 'a::comm_ring_1 list \<Rightarrow> 'a \<Rightarrow> 'a" where
  "spec_evaluate q a x = (\<Sum>i\<leftarrow>[0..<length a]. a ! i * x ^ (q ^ i))"

section \<open>Objects held by reference\<close>

text \<open>Python passes objects by reference. A store is the list of the module objects
  created so far and a reference is an index into it; a constructor call appends the new
  object. \<^verbatim>\<open>change_ring\<close> reads \<open>self\<close> through its getters, assigns to none of its
  attributes, and returns the object that the constructor call at its end creates.\<close>

type_synonym 'a store = "'a FiniteDrinfeldModule list"

definition change_ring_ref ::
  "(ring \<Rightarrow> ring \<Rightarrow> bool) \<Rightarrow> ('a \<Rightarrow> 'a::zero) \<Rightarrow> 'a store \<Rightarrow> nat \<Rightarrow> ring
     \<Rightarrow> (error + nat) \<times> 'a store" where
  "change_ring_ref is_subring emb st self R =
     (case change_ring is_subring emb (st ! self) R of
        Inl e \<Rightarrow> (Inl e, st)
      | Inr m \<Rightarrow> (Inr (length st), st @ [m]))"

section \<open>A small instance: \<open>GF(2)[X]\<close> acting on \<open>GF(4)\<close>\<close>

text \<open>The field with four elements, \<open>{0, 1, \<alpha>, \<alpha> + 1}\<close> with \<open>\<alpha>^2 = \<alpha> + 1\<close>.\<close>

datatype gf4 = Zero4 | One4 | Alpha | Alpha1

instantiation gf4 :: comm_ring_1
begin

definition zero_gf4 :: gf4 where "zero_gf4 = Zero4"

definition one_gf4 :: gf4 where "one_gf4 = One4"

fun plus_gf4 :: "gf4 \<Rightarrow> gf4 \<Rightarrow> gf4" where
  "plus_gf4 Zero4 y = y"
| "plus_gf4 x Zero4 = x"
| "plus_gf4 One4 One4 = Zero4"
| "plus_gf4 One4 Alpha = Alpha1"
| "plus_gf4 One4 Alpha1 = Alpha"
| "plus_gf4 Alpha One4 = Alpha1"
| "plus_gf4 Alpha Alpha = Zero4"
| "plus_gf4 Alpha Alpha1 = One4"
| "plus_gf4 Alpha1 One4 = Alpha"
| "plus_gf4 Alpha1 Alpha = One4"
| "plus_gf4 Alpha1 Alpha1 = Zero4"

fun times_gf4 :: "gf4 \<Rightarrow> gf4 \<Rightarrow> gf4" where
  "times_gf4 Zero4 y = Zero4"
| "times_gf4 x Zero4 = Zero4"
| "times_gf4 One4 y = y"
| "times_gf4 x One4 = x"
| "times_gf4 Alpha Alpha = Alpha1"
| "times_gf4 Alpha Alpha1 = One4"
| "times_gf4 Alpha1 Alpha = One4"
| "times_gf4 Alpha1 Alpha1 = Alpha"

definition uminus_gf4 :: "gf4 \<Rightarrow> gf4" where "uminus_gf4 x = x"

definition minus_gf4 :: "gf4 \<Rightarrow> gf4 \<Rightarrow> gf4" where "minus_gf4 x y = x + y"

instance
proof
  fix u v w :: gf4
  show "u * v = v * u"
    by (cases u; cases v; simp)
  show "u + v = v + u"
    by (cases u; cases v; simp)
  show "(u + v) * w = u * w + v * w"
    by (cases u; cases v; cases w; simp)
  show "u * v * w = u * (v * w)"
    by (cases u; cases v; cases w; simp)
  show "u + v + w = u + (v + w)"
    by (cases u; cases v; cases w; simp)
  show "1 * u = u"
    unfolding one_gf4_def by (cases u; simp)
  show "0 + u = u"
    unfolding zero_gf4_def by simp
  show "- u + u = 0"
    unfolding zero_gf4_def uminus_gf4_def by (cases u; simp)
  show "u - v = u + - v"
    unfolding minus_gf4_def uminus_gf4_def by simp
  show "(0::gf4) \<noteq> 1"
    unfolding zero_gf4_def one_gf4_def by simp
qed

end

definition GF2 :: ring where
  "GF2 = \<lparr>ring_name = ''GF(2)'', is_field = True, is_finite = True,
          characteristic = 2, degree = 1\<rparr>"

definition GF4 :: ring where
  "GF4 = \<lparr>ring_name = ''GF(4)'', is_field = True, is_finite = True,
          characteristic = 2, degree = 2\<rparr>"

definition GF16 :: ring where
  "GF16 = \<lparr>ring_name = ''GF(16)'', is_field = True, is_finite = True,
           characteristic = 2, degree = 4\<rparr>"

definition GF8 :: ring where
  "GF8 = \<lparr>ring_name = ''GF(8)'', is_field = True, is_finite = True,
          characteristic = 2, degree = 3\<rparr>"

definition QQ :: ring where
  "QQ = \<lparr>ring_name = ''QQ'', is_field = True, is_finite = False,
         characteristic = 0, degree = 1\<rparr>"

definition ZZ :: ring where
  "ZZ = \<lparr>ring_name = ''ZZ'', is_field = False, is_finite = False,
         characteristic = 0, degree = 1\<rparr>"

text \<open>An instance of the subring relation on these objects: finite fields of the same
  characteristic whose degrees divide.\<close>

definition finite_field_is_subring :: "ring \<Rightarrow> ring \<Rightarrow> bool" where
  "finite_field_is_subring A B =
     (is_field A \<and> is_finite A \<and> is_field B \<and> is_finite B
      \<and> characteristic A = characteristic B \<and> degree A dvd degree B)"

definition ex_FqX :: polynomial_ring where
  "ex_FqX = \<lparr>is_PolynomialRing_dense_finite_field = True, pr_base_ring = GF2\<rparr>"

definition ex_Ltau :: ore_polynomial_ring where
  "ex_Ltau = \<lparr>ore_base_ring = GF4, twisting_morphism = \<lparr>frobenius_power = 1\<rparr>,
           twisting_derivation = None, variable_names = ''t''\<rparr>"

text \<open>The generator \<open>\<tau>^2 + \<alpha>\<close> and the module it defines.\<close>

definition ex_phi_X :: "gf4 ore_polynomial" where
  "ex_phi_X = \<lparr>parent = ex_Ltau, coefficients = [Alpha, Zero4, One4]\<rparr>"

definition ex_phi :: "gf4 FiniteDrinfeldModule" where
  "ex_phi = \<lparr>domain = ex_FqX, codomain = ex_Ltau, im_gens = [ex_phi_X]\<rparr>"

definition ex_phi_action :: "gf4 FiniteDrinfeldModuleAction" where
  "ex_phi_action = \<lparr>finite_drinfeld_module = ex_phi, actor = ex_FqX, underlying_set = GF4\<rparr>"

text \<open>Variants of the Ore ring that the constructor must refuse, and the module over
  \<open>GF(16)\<close> that the change of base field produces.\<close>

definition GF4_with_derivation :: ore_polynomial_ring where
  "GF4_with_derivation = ex_Ltau\<lparr>twisting_derivation := Some (Derivation ''d'')\<rparr>"

definition GF4_wrong_twist :: ore_polynomial_ring where
  "GF4_wrong_twist = ex_Ltau\<lparr>twisting_morphism := \<lparr>frobenius_power = 2\<rparr>\<rparr>"

definition ex_Rtau :: ore_polynomial_ring where
  "ex_Rtau = \<lparr>ore_base_ring = GF16, twisting_morphism = \<lparr>frobenius_power = 1\<rparr>,
              twisting_derivation = None, variable_names = ''t''\<rparr>"

definition ex_psi :: "gf4 FiniteDrinfeldModule" where
  "ex_psi = \<lparr>domain = ex_FqX, codomain = ex_Rtau,
             im_gens = [\<lparr>parent = ex_Rtau, coefficients = [Alpha, Zero4, One4]\<rparr>]\<rparr>"

section \<open>Auxiliary facts\<close>

subsection \<open>Validation\<close>

lemma strip_zeros_length: "length (strip_zeros cs) \<le> length cs"
  by (induction cs) (auto simp: Let_def)

lemma init_OrePolynomial:
  "FiniteDrinfeldModule_init is_subring P (OrePolynomial g) =
     (if \<not> (is_field (ore_base_ring (parent g)) \<and> is_finite (ore_base_ring (parent g))
             \<and> is_subring (pr_base_ring P) (ore_base_ring (parent g)))
      then Inl (ValueError (''The base field of the Ore polynomial ring must '' @
                            ''be a finite field extension of the base field of the '' @
                            ''polynomial ring''))
      else if twisting_derivation (parent g) \<noteq> None
      then Inl (ValueError (''The Ore polynomial ring should have no '' @ ''derivation''))
      else if frobenius_power (twisting_morphism (parent g)) \<noteq> degree (pr_base_ring P)
      then Inl (ValueError (''The twisting morphism of the Ore polynomial '' @
                            ''ring must be the Frobenius endomorphism of the base '' @
                            ''field of the polynomial ring''))
      else if is_constant g
      then Inl (ValueError ''The generator must not be constant'')
      else Inr \<lparr>domain = P, codomain = parent g, im_gens = [g]\<rparr>)"
  by (simp add: FiniteDrinfeldModule_init_def check_base_fields_def Let_def)

lemma init_Inr_iff:
  "(FiniteDrinfeldModule_init is_subring P (OrePolynomial g) = Inr m) =
     (is_field (ore_base_ring (parent g)) \<and> is_finite (ore_base_ring (parent g))
      \<and> is_subring (pr_base_ring P) (ore_base_ring (parent g))
      \<and> twisting_derivation (parent g) = None
      \<and> frobenius_power (twisting_morphism (parent g)) = degree (pr_base_ring P)
      \<and> \<not> is_constant g
      \<and> m = \<lparr>domain = P, codomain = parent g, im_gens = [g]\<rparr>)"
  by (auto simp: init_OrePolynomial)

lemma init_Inr_cases:
  assumes "FiniteDrinfeldModule_init is_subring P obj = Inr m"
  obtains g where "obj = OrePolynomial g"
    and "is_field (ore_base_ring (parent g))" and "is_finite (ore_base_ring (parent g))"
    and "is_subring (pr_base_ring P) (ore_base_ring (parent g))"
    and "twisting_derivation (parent g) = None"
    and "frobenius_power (twisting_morphism (parent g)) = degree (pr_base_ring P)"
    and "\<not> is_constant g"
    and "m = \<lparr>domain = P, codomain = parent g, im_gens = [g]\<rparr>"
proof (cases obj)
  case (OrePolynomial g)
  with assms show ?thesis using that[of g] by (simp add: init_Inr_iff)
next
  case (OtherObject s)
  with assms show ?thesis by (simp add: FiniteDrinfeldModule_init_def)
qed

subsection \<open>The Frobenius map is additive in prime characteristic\<close>

lemma is_prime_coprime:
  assumes "is_prime p" "0 < k" "k < p"
  shows "coprime k p"
proof -
  let ?d = "gcd k p"
  have d_dvd: "?d dvd p" "?d dvd k" by simp_all
  have "?d \<le> k" using d_dvd(2) assms(2) by (simp add: dvd_imp_le)
  then have "?d < p" using assms(3) by simp
  moreover have "?d \<noteq> 0" using assms(2) by simp
  ultimately have "?d = 1"
  proof -
    assume lt: "?d < p" and nz: "?d \<noteq> 0"
    have "\<not> (2 \<le> ?d)"
    proof
      assume "2 \<le> ?d"
      with lt have "?d \<in> {2..<p}" by simp
      with assms(1) have "\<not> ?d dvd p" unfolding is_prime_def by blast
      with d_dvd(1) show False by simp
    qed
    with nz show ?thesis by linarith
  qed
  then show ?thesis by (simp add: coprime_iff_gcd_eq_1)
qed

lemma is_prime_dvd_choose:
  assumes "is_prime p" "0 < k" "k < p"
  shows "p dvd (p choose k)"
proof -
  obtain j where j: "k = Suc j" using assms(2) by (cases k) auto
  obtain n where n: "p = Suc n" using assms(3) by (cases p) auto
  have "Suc j * (Suc n choose Suc j) = Suc n * (n choose j)"
    by (metis Suc_times_binomial_eq mult.commute)
  then have "k * (p choose k) = p * (n choose j)" unfolding j n .
  then have "p dvd k * (p choose k)" by (metis dvd_triv_left)
  moreover have "coprime p k" using is_prime_coprime[OF assms] by (simp add: coprime_commute)
  ultimately show ?thesis by (simp add: coprime_dvd_mult_right_iff)
qed

lemma frobenius_add_prime:
  fixes a b :: "'a::comm_ring_1"
  assumes "is_prime p" "of_nat p = (0::'a)"
  shows "(a + b) ^ p = a ^ p + b ^ p"
proof -
  have p0: "0 < p" using assms(1) by (simp add: is_prime_def)
  have mid: "of_nat (p choose k) * a ^ k * b ^ (p - k) = 0" if "k \<in> {1..<p}" for k
  proof -
    from that have "p dvd (p choose k)" using is_prime_dvd_choose[OF assms(1), of k] by simp
    then obtain m where "p choose k = p * m" by (auto simp: dvd_def)
    then have "(of_nat (p choose k) :: 'a) = of_nat p * of_nat m" by simp
    then show ?thesis using assms(2) by simp
  qed
  have "(a + b) ^ p = (\<Sum>k\<le>p. of_nat (p choose k) * a ^ k * b ^ (p - k))"
    by (rule binomial_ring)
  also have "{..p} = insert 0 (insert p {1..<p})" using p0 by auto
  also have "(\<Sum>k\<in>insert 0 (insert p {1..<p}). of_nat (p choose k) * a ^ k * b ^ (p - k))
      = b ^ p + a ^ p + (\<Sum>k\<in>{1..<p}. of_nat (p choose k) * a ^ k * b ^ (p - k))"
    using p0 by (simp add: add.assoc)
  also have "(\<Sum>k\<in>{1..<p}. of_nat (p choose k) * a ^ k * b ^ (p - k)) = 0"
    using mid by (simp add: sum.neutral)
  finally show ?thesis by (simp add: add.commute)
qed

lemma frobenius_add:
  fixes a b :: "'a::comm_ring_1"
  assumes "is_prime p" "of_nat p = (0::'a)"
  shows "(a + b) ^ (p ^ k) = a ^ (p ^ k) + b ^ (p ^ k)"
proof (induction k)
  case 0
  show ?case by simp
next
  case (Suc k)
  have pm: "x ^ (p ^ Suc k) = (x ^ (p ^ k)) ^ p" for x :: 'a
    by (metis power_Suc2 power_mult)
  have "(a + b) ^ (p ^ Suc k) = ((a + b) ^ (p ^ k)) ^ p"
    by (rule pm)
  also have "\<dots> = (a ^ (p ^ k) + b ^ (p ^ k)) ^ p" using Suc by simp
  also have "\<dots> = (a ^ (p ^ k)) ^ p + (b ^ (p ^ k)) ^ p"
    by (rule frobenius_add_prime[OF assms])
  finally show ?case by (simp only: pm)
qed

subsection \<open>Evaluation of Ore polynomials\<close>

lemma operator_eval_padd:
  "operator_eval T (padd as bs) x = operator_eval T as x + operator_eval T bs x"
  by (induction as bs arbitrary: x rule: padd.induct) (simp_all add: algebra_simps)

lemma operator_eval_smult:
  "operator_eval T (smult c as) x = c * operator_eval T as x"
  by (induction as arbitrary: x) (simp_all add: smult_def algebra_simps)

lemma operator_eval_add:
  assumes "\<And>a b. T (a + b) = T a + T b"
  shows "operator_eval T as (x + y) = operator_eval T as x + operator_eval T as y"
  using assms by (induction as arbitrary: x y) (simp_all add: algebra_simps)

lemma operator_eval_zero:
  assumes "T 0 = 0"
  shows "operator_eval T as 0 = 0"
  using assms by (induction as) simp_all

lemma operator_eval_map_twist:
  assumes "\<And>a b. \<sigma> (a + b) = \<sigma> a + \<sigma> b" "\<And>a b. \<sigma> (a * b) = \<sigma> a * \<sigma> b" "\<sigma> 0 = 0"
  shows "operator_eval \<sigma> (map \<sigma> bs) (\<sigma> x) = \<sigma> (operator_eval \<sigma> bs x)"
  using assms by (induction bs arbitrary: x) simp_all

lemma operator_eval_shift_twist:
  assumes "\<And>a b. \<sigma> (a + b) = \<sigma> a + \<sigma> b" "\<And>a b. \<sigma> (a * b) = \<sigma> a * \<sigma> b" "\<sigma> 0 = 0"
  shows "operator_eval \<sigma> (shift_twist \<sigma> bs) x = \<sigma> (operator_eval \<sigma> bs x)"
  using operator_eval_map_twist[OF assms] by (simp add: shift_twist_def)

lemma operator_eval_ore_mult:
  assumes "\<And>a b. \<sigma> (a + b) = \<sigma> a + \<sigma> b" "\<And>a b. \<sigma> (a * b) = \<sigma> a * \<sigma> b" "\<sigma> 0 = 0"
  shows "operator_eval \<sigma> (ore_mult \<sigma> as bs) x = operator_eval \<sigma> as (operator_eval \<sigma> bs x)"
proof (induction as arbitrary: bs x)
  case Nil
  show ?case by simp
next
  case (Cons a as)
  show ?case
    by (simp add: operator_eval_padd operator_eval_smult Cons.IH
        operator_eval_shift_twist[OF assms])
qed

lemma operator_eval_ore_pow:
  assumes "\<And>a b. \<sigma> (a + b) = \<sigma> a + \<sigma> b" "\<And>a b. \<sigma> (a * b) = \<sigma> a * \<sigma> b" "\<sigma> 0 = 0"
  shows "operator_eval \<sigma> (ore_pow \<sigma> f n) x = (operator_eval \<sigma> f ^^ n) x"
proof (induction n arbitrary: x)
  case 0
  show ?case by simp
next
  case (Suc n)
  show ?case
    by (simp add: operator_eval_ore_mult[OF assms] Suc.IH funpow_swap1)
qed

lemma operator_eval_hom_sum:
  assumes "\<And>a b. \<sigma> (a + b) = \<sigma> a + \<sigma> b" "\<And>a b. \<sigma> (a * b) = \<sigma> a * \<sigma> b" "\<sigma> 0 = 0"
  shows "operator_eval \<sigma> (hom_sum \<sigma> f i g) x
           = operator_eval (operator_eval \<sigma> f) g ((operator_eval \<sigma> f ^^ i) x)"
proof (induction g arbitrary: i)
  case Nil
  show ?case by simp
next
  case (Cons c g)
  show ?case
    by (simp add: operator_eval_padd operator_eval_smult operator_eval_ore_pow[OF assms]
        Cons.IH)
qed

lemma operator_eval_commute:
  assumes add: "\<And>a b. T (a + b) = T a + T b"
    and lin: "\<And>c y. c \<in> set g \<Longrightarrow> T (c * y) = c * T y"
    and zero: "T 0 = 0"
  shows "T (operator_eval T g x) = operator_eval T g (T x)"
  using lin
proof (induction g arbitrary: x)
  case Nil
  show ?case by (simp add: zero)
next
  case (Cons c g)
  then show ?case by (simp add: add)
qed

lemma operator_eval_poly_mult:
  assumes add: "\<And>a b. T (a + b) = T a + T b"
    and lin: "\<And>c y. c \<in> set g2 \<Longrightarrow> T (c * y) = c * T y"
    and zero: "T 0 = 0"
  shows "operator_eval T (poly_mult g1 g2) x = operator_eval T g1 (operator_eval T g2 x)"
proof (induction g1 arbitrary: x)
  case Nil
  show ?case by simp
next
  case (Cons c g1)
  have "operator_eval T g2 (T x) = T (operator_eval T g2 x)"
    using operator_eval_commute[of T g2 x, OF add lin zero] by simp
  then show ?case
    by (simp add: operator_eval_padd operator_eval_smult Cons.IH)
qed

lemma operator_eval_linear:
  assumes mult: "\<And>a b. \<sigma> (a * b) = \<sigma> a * \<sigma> b" and fixed: "\<sigma> c = c"
  shows "operator_eval \<sigma> f (c * y) = c * operator_eval \<sigma> f y"
proof (induction f arbitrary: y)
  case Nil
  show ?case by simp
next
  case (Cons a f)
  have "operator_eval \<sigma> (a # f) (c * y) = a * (c * y) + operator_eval \<sigma> f (c * \<sigma> y)"
    by (simp add: mult fixed)
  also have "\<dots> = c * (a * y) + c * operator_eval \<sigma> f (\<sigma> y)"
    by (simp add: Cons.IH mult.left_commute)
  finally show ?case by (simp add: distrib_left)
qed

lemma hom_sum_foldr:
  "hom_sum \<sigma> f i g =
     foldr padd (map (\<lambda>j. smult (g ! j) (ore_pow \<sigma> f (i + j))) [0..<length g]) []"
proof (induction g arbitrary: i)
  case Nil
  show ?case by simp
next
  case (Cons c g)
  have "[0..<length (c # g)] = 0 # map Suc [0..<length g]"
    by (simp add: upt_conv_Cons map_Suc_upt del: upt_Suc)
  then show ?case by (simp add: Cons.IH comp_def del: upt_Suc)
qed

lemma funpow_power: "((\<lambda>y::'a::monoid_mult. y ^ m) ^^ i) x = x ^ (m ^ i)"
proof (induction i)
  case 0
  show ?case by simp
next
  case (Suc i)
  have "((\<lambda>y::'a. y ^ m) ^^ Suc i) x = (x ^ (m ^ i)) ^ m" by (simp add: Suc)
  also have "\<dots> = x ^ (m ^ i * m)" by (simp add: power_mult)
  finally show ?case by (simp add: mult.commute)
qed

lemma operator_eval_sum_list:
  "operator_eval \<sigma> as x = (\<Sum>i\<leftarrow>[0..<length as]. as ! i * (\<sigma> ^^ i) x)"
proof (induction as arbitrary: x)
  case Nil
  show ?case by simp
next
  case (Cons a as)
  have "[0..<length (a # as)] = 0 # map Suc [0..<length as]"
    by (simp add: upt_conv_Cons map_Suc_upt del: upt_Suc)
  then show ?case by (simp add: Cons.IH comp_def funpow_swap1 del: upt_Suc)
qed

lemma act_of_valid:
  assumes "FiniteDrinfeldModule_init is_subring P (OrePolynomial f) = Inr phi"
    and "get_action phi = Inr A"
  shows "act A g x = Inr (operator_eval (twist (parent f))
                           (hom_sum (twist (parent f)) (coefficients f) 0 g) x)"
  using assms
  by (auto simp: init_Inr_iff get_action_def FiniteDrinfeldModuleAction_init_def act_def
      call_module_def call_ore_polynomial_def gen_def)

lemma twist_of_valid:
  assumes "FiniteDrinfeldModule_init is_subring P (OrePolynomial f) = Inr phi"
    and "characteristic (pr_base_ring P) = characteristic (ore_base_ring (parent f))"
  shows "twist (parent f) = (\<lambda>y::'a::comm_ring_1. y ^ order (pr_base_ring P))"
  using assms by (auto simp: init_Inr_iff twist_def order_def fun_eq_iff)

lemma twist_props:
  fixes a b :: "'a::comm_ring_1"
  assumes "is_prime p" "of_nat p = (0::'a)"
  shows "(a + b) ^ (p ^ k) = a ^ (p ^ k) + b ^ (p ^ k)"
    and "(a * b) ^ (p ^ k) = a ^ (p ^ k) * b ^ (p ^ k)"
    and "(0::'a) ^ (p ^ k) = 0"
proof -
  show "(a + b) ^ (p ^ k) = a ^ (p ^ k) + b ^ (p ^ k)" by (rule frobenius_add[OF assms])
  show "(a * b) ^ (p ^ k) = a ^ (p ^ k) * b ^ (p ^ k)" by (rule power_mult_distrib)
  have "0 < p" using assms(1) by (simp add: is_prime_def)
  then have "p ^ k \<noteq> 0" by simp
  then show "(0::'a) ^ (p ^ k) = 0" by (simp add: power_0_left)
qed

subsection \<open>The instance over \<open>GF(4)\<close> is a valid module\<close>

lemma ex_valid:
  "FiniteDrinfeldModule_init finite_field_is_subring ex_FqX (OrePolynomial ex_phi_X) = Inr ex_phi"
  by (simp add: init_OrePolynomial ex_phi_def ex_phi_X_def ex_Ltau_def ex_FqX_def GF2_def GF4_def
      finite_field_is_subring_def is_constant_def ore_degree_def zero_gf4_def)

lemma ex_action: "get_action ex_phi = Inr ex_phi_action"
  by (simp add: get_action_def FiniteDrinfeldModuleAction_init_def ex_phi_action_def
      polring_def ore_polring_def ex_phi_def ex_Ltau_def)

lemma ex_char: "characteristic (pr_base_ring ex_FqX) = characteristic (ore_base_ring (parent ex_phi_X))"
  by (simp add: ex_FqX_def ex_phi_X_def ex_Ltau_def GF2_def GF4_def)

lemma ex_prime: "is_prime (characteristic (ore_base_ring (parent ex_phi_X)))"
  by (simp add: ex_phi_X_def ex_Ltau_def GF4_def is_prime_def)

lemma ex_zero: "of_nat (characteristic (ore_base_ring (parent ex_phi_X))) = (0::gf4)"
  by (simp add: ex_phi_X_def ex_Ltau_def GF4_def zero_gf4_def one_gf4_def numeral_2_eq_2)

lemma ex_sub: "\<forall>c\<in>set [Zero4, One4, One4]. in_subfield (pr_base_ring ex_FqX) c"
  by (simp add: in_subfield_def order_def ex_FqX_def GF2_def power2_eq_square)

subsection \<open>Change of base field\<close>

lemma ex_constant: "is_constant \<lparr>parent = ex_Ltau, coefficients = [Alpha]\<rparr>"
  by (simp add: is_constant_def ore_degree_def)

lemma strip_zeros_map:
  assumes "\<forall>c. (emb c = 0) = (c = 0)"
  shows "strip_zeros (map emb cs) = map emb (strip_zeros cs)"
  using assms by (induction cs) (simp_all add: Let_def)

lemma ore_degree_convert:
  assumes "\<forall>c. (emb c = 0) = (c = 0)"
  shows "ore_degree (convert emb Rtau f) = ore_degree f"
  by (simp add: ore_degree_def convert_def strip_zeros_map[OF assms])

lemma change_ring_Inr_cases:
  assumes "change_ring is_subring emb self R = Inr m'"
  obtains g where "gen self = Inr g"
    and "is_field R" and "is_finite R"
    and "is_subring (ore_base_ring (ore_polring self)) R"
    and "is_subring (pr_base_ring (polring self)) R"
    and "FiniteDrinfeldModule_init is_subring (polring self)
           (OrePolynomial (convert emb
              (OrePolynomialRing R (frobenius_endomorphism R (frobenius_power (frobenius self)))
                 (variable_names (ore_polring self))) g)) = Inr m'"
  using assms
  by (auto simp: change_ring_def check_base_fields_def Let_def
      split: if_splits sum.splits)

lemma parent_convert: "parent (convert emb Rtau f) = Rtau"
  by (simp add: convert_def)

lemma change_ring_TypeError_iff:
  "(\<exists>msg. change_ring is_subring emb self R = Inl (TypeError msg))
     = (\<not> is_field R \<and> is_finite R)"
  by (auto simp: change_ring_def check_base_fields_def Let_def init_OrePolynomial gen_def
      split: sum.splits list.splits if_splits)

lemma change_ring_succeeds_iff:
  assumes valid: "FiniteDrinfeldModule_init is_subring P obj = Inr self"
    and emb: "\<forall>c. (emb c = 0) = (c = 0)"
  shows "(\<exists>m'. change_ring is_subring emb self R = Inr m')
     = (is_field R \<and> is_finite R \<and> is_subring (ore_base_ring (ore_polring self)) R
        \<and> is_subring (pr_base_ring (polring self)) R)"
  using valid
  by (elim init_Inr_cases)
    (auto simp: change_ring_def check_base_fields_def Let_def init_OrePolynomial gen_def
      polring_def ore_polring_def frobenius_def is_constant_def ore_degree_convert[OF emb]
      OrePolynomialRing_def frobenius_endomorphism_def parent_convert)

lemma ex_change_ring: "change_ring finite_field_is_subring id ex_phi GF16 = Inr ex_psi"
  by (simp add: change_ring_def check_base_fields_def finite_field_is_subring_def
      init_OrePolynomial ex_phi_def ex_phi_X_def ex_Ltau_def ex_FqX_def GF2_def GF4_def GF16_def
      ex_psi_def ex_Rtau_def polring_def ore_polring_def frobenius_def gen_def
      frobenius_endomorphism_def OrePolynomialRing_def convert_def Let_def
      is_constant_def ore_degree_def zero_gf4_def)

lemma ex_rank_phi: "rank ex_phi = Inr 2"
  by (simp add: rank_def gen_def ex_phi_def ex_phi_X_def ore_degree_def zero_gf4_def)

lemma ex_rank_psi: "rank ex_psi = Inr 2"
  by (simp add: rank_def gen_def ex_psi_def ore_degree_def zero_gf4_def)

section \<open>The claims\<close>

text \<open>
  C1. For a module that the constructor accepted and the action built from it,
  \<open>act(g, x)\<close> returns \<open>\<phi>(g)(x)\<close>: the image \<open>\<Sum> c_i gen^i\<close> of \<open>g = \<Sum> c_i X^i\<close>, formed with the
  twisted product of the Ore ring, evaluated at \<open>x\<close> as \<open>\<Sum> a_i x^(q^i)\<close> with \<open>q = |Fq|\<close>.
  The constructor's check of the twist power is what makes the ring's own twist the map
  \<open>y \<mapsto> y^q\<close>; \<open>Fq\<close>, a subfield of \<open>L\<close>, has the characteristic of \<open>L\<close>.
\<close>

theorem act_formula:
  fixes x :: "'a::comm_ring_1"
  assumes valid: "FiniteDrinfeldModule_init is_subring P (OrePolynomial f) = Inr phi"
    and action: "get_action phi = Inr A"
    and char: "characteristic (pr_base_ring P) = characteristic (ore_base_ring (parent f))"
  shows "act A g x =
           Inr (spec_evaluate (order (pr_base_ring P))
                  (spec_image (order (pr_base_ring P)) (coefficients f) g) x)"
  unfolding act_of_valid[OF valid action] twist_of_valid[OF valid char]
  by (simp add: spec_evaluate_def spec_image_def hom_sum_foldr operator_eval_sum_list
      funpow_power)

theorem act_formula_witness:
  "FiniteDrinfeldModule_init finite_field_is_subring ex_FqX (OrePolynomial ex_phi_X) = Inr ex_phi
   \<and> get_action ex_phi = Inr ex_phi_action
   \<and> characteristic (pr_base_ring ex_FqX) = characteristic (ore_base_ring (parent ex_phi_X))
   \<and> act ex_phi_action [One4, One4, One4] Alpha =
       Inr (spec_evaluate (order (pr_base_ring ex_FqX))
              (spec_image (order (pr_base_ring ex_FqX)) (coefficients ex_phi_X)
                 [One4, One4, One4]) Alpha)
   \<and> act ex_phi_action [One4, One4, One4] Alpha = Inr Zero4"
proof -
  have "act ex_phi_action [One4, One4, One4] Alpha = Inr Zero4" by code_simp
  then show ?thesis
    using act_formula[OF ex_valid ex_action ex_char, of "[One4, One4, One4]" Alpha]
      ex_valid ex_action ex_char by simp
qed

text \<open>
  C2. The homomorphism laws of the action of a module that the constructor accepted:
  \<open>act(g1 + g2, x) = act(g1, x) + act(g2, x)\<close>, \<open>act(g1 * g2, x) = act(g1, act(g2, x))\<close> and
  \<open>act(1, x) = x\<close>. The elements of \<open>L\<close> have type \<open>'a\<close>, a commutative ring in which the
  (prime) characteristic of \<open>L\<close> is zero; a polynomial of \<open>Fq[X]\<close> has its coefficients in
  the subfield of order \<open>|Fq|\<close>.
\<close>

theorem act_laws:
  fixes x :: "'a::comm_ring_1"
  assumes valid: "FiniteDrinfeldModule_init is_subring P (OrePolynomial f) = Inr phi"
    and action: "get_action phi = Inr A"
    and char: "characteristic (pr_base_ring P) = characteristic (ore_base_ring (parent f))"
    and prime: "is_prime (characteristic (ore_base_ring (parent f)))"
    and zero: "of_nat (characteristic (ore_base_ring (parent f))) = (0::'a)"
    and g2: "\<forall>c\<in>set g2. in_subfield (pr_base_ring P) c"
  shows "\<exists>y1 y2. act A g1 x = Inr y1 \<and> act A g2 x = Inr y2
           \<and> act A (padd g1 g2) x = Inr (y1 + y2)
           \<and> act A (poly_mult g1 g2) x = act A g1 y2
           \<and> act A poly_one x = Inr x"
proof -
  define q where "q = order (pr_base_ring P)"
  define \<sigma> where "\<sigma> = (\<lambda>y::'a. y ^ q)"
  define T where "T = operator_eval \<sigma> (coefficients f)"
  have tw: "twist (parent f) = \<sigma>"
    unfolding \<sigma>_def q_def by (rule twist_of_valid[OF valid char])
  have q: "q = characteristic (ore_base_ring (parent f)) ^ degree (pr_base_ring P)"
    by (simp add: q_def order_def char)
  have s_add: "\<And>a b. \<sigma> (a + b) = \<sigma> a + \<sigma> b"
    and s_mult: "\<And>a b. \<sigma> (a * b) = \<sigma> a * \<sigma> b"
    and s_zero: "\<sigma> 0 = 0"
    unfolding \<sigma>_def q by (rule twist_props[OF prime zero])+
  have act_eq: "act A g y = Inr (operator_eval T g y)" for g y
    unfolding act_of_valid[OF valid action] tw T_def
    by (simp add: operator_eval_hom_sum[OF s_add s_mult s_zero])
  have T_add: "\<And>a b. T (a + b) = T a + T b"
    unfolding T_def by (rule operator_eval_add[OF s_add])
  have T_zero: "T 0 = 0"
    unfolding T_def using s_zero by (rule operator_eval_zero)
  have T_lin: "T (c * y) = c * T y" if "c \<in> set g2" for c y
  proof -
    from that g2 have "\<sigma> c = c" by (simp add: in_subfield_def \<sigma>_def q_def)
    then show ?thesis unfolding T_def by (rule operator_eval_linear[OF s_mult])
  qed
  have "act A (padd g1 g2) x = Inr (operator_eval T g1 x + operator_eval T g2 x)"
    by (simp add: act_eq operator_eval_padd)
  moreover have "act A (poly_mult g1 g2) x = act A g1 (operator_eval T g2 x)"
    by (simp add: act_eq operator_eval_poly_mult[OF T_add T_lin T_zero])
  moreover have "act A poly_one x = Inr x"
    by (simp add: act_eq poly_one_def)
  ultimately show ?thesis using act_eq by blast
qed

theorem act_laws_witness:
  "FiniteDrinfeldModule_init finite_field_is_subring ex_FqX (OrePolynomial ex_phi_X) = Inr ex_phi
   \<and> get_action ex_phi = Inr ex_phi_action
   \<and> characteristic (pr_base_ring ex_FqX) = characteristic (ore_base_ring (parent ex_phi_X))
   \<and> is_prime (characteristic (ore_base_ring (parent ex_phi_X)))
   \<and> of_nat (characteristic (ore_base_ring (parent ex_phi_X))) = (0::gf4)
   \<and> list_all (in_subfield (pr_base_ring ex_FqX)) [Zero4, One4, One4]
   \<and> act ex_phi_action [One4, One4] Alpha = Inr Alpha1
   \<and> act ex_phi_action [Zero4, One4, One4] Alpha = Inr Alpha
   \<and> act ex_phi_action (padd [One4, One4] [Zero4, One4, One4]) Alpha = Inr (Alpha1 + Alpha)
   \<and> act ex_phi_action (poly_mult [One4, One4] [Zero4, One4, One4]) Alpha
       = act ex_phi_action [One4, One4] Alpha
   \<and> act ex_phi_action poly_one Alpha = Inr Alpha"
proof -
  have a1: "act ex_phi_action [One4, One4] Alpha = Inr Alpha1" by code_simp
  have a2: "act ex_phi_action [Zero4, One4, One4] Alpha = Inr Alpha" by code_simp
  from act_laws[OF ex_valid ex_action ex_char ex_prime ex_zero ex_sub, of "[One4, One4]" Alpha]
  show ?thesis
    using a1 a2 ex_valid ex_action ex_char ex_prime ex_zero ex_sub by (auto simp: list_all_iff)
qed

text \<open>
  C3. The constructor refuses a generator that is not an Ore polynomial with a
  \<^verbatim>\<open>TypeError\<close>. For an Ore polynomial every refusal is a \<^verbatim>\<open>ValueError\<close>: a constant
  generator, a ring with a derivation and a twist power other than \<open>deg(Fq)\<close> are each
  refused whatever the other arguments are. The checks run in the order field
  compatibility, derivation, twist power, constant generator, each reached only when the
  earlier ones passed, and an object is returned only when all of them passed.
\<close>

theorem init_validation_gating:
  "FiniteDrinfeldModule_init is_subring P (OtherObject s :: 'a::zero gen_arg)
     = Inl (TypeError ''The generator must be an Ore polynomial'')
   \<and> (is_constant g \<longrightarrow>
        (\<exists>msg. FiniteDrinfeldModule_init is_subring P (OrePolynomial g) = Inl (ValueError msg)))
   \<and> (twisting_derivation (parent g) \<noteq> None \<longrightarrow>
        (\<exists>msg. FiniteDrinfeldModule_init is_subring P (OrePolynomial g) = Inl (ValueError msg)))
   \<and> (frobenius_power (twisting_morphism (parent g)) \<noteq> degree (pr_base_ring P) \<longrightarrow>
        (\<exists>msg. FiniteDrinfeldModule_init is_subring P (OrePolynomial g) = Inl (ValueError msg)))
   \<and> (check_base_fields is_subring (pr_base_ring P) (ore_base_ring (parent g)) = Inl e \<longrightarrow>
        FiniteDrinfeldModule_init is_subring P (OrePolynomial g) = Inl e)
   \<and> (check_base_fields is_subring (pr_base_ring P) (ore_base_ring (parent g)) = Inr ()
        \<and> twisting_derivation (parent g) \<noteq> None \<longrightarrow>
        FiniteDrinfeldModule_init is_subring P (OrePolynomial g)
          = Inl (ValueError ''The Ore polynomial ring should have no derivation''))
   \<and> (check_base_fields is_subring (pr_base_ring P) (ore_base_ring (parent g)) = Inr ()
        \<and> twisting_derivation (parent g) = None
        \<and> frobenius_power (twisting_morphism (parent g)) \<noteq> degree (pr_base_ring P) \<longrightarrow>
        FiniteDrinfeldModule_init is_subring P (OrePolynomial g)
          = Inl (ValueError (''The twisting morphism of the Ore polynomial '' @
                             ''ring must be the Frobenius endomorphism of the base '' @
                             ''field of the polynomial ring'')))
   \<and> (check_base_fields is_subring (pr_base_ring P) (ore_base_ring (parent g)) = Inr ()
        \<and> twisting_derivation (parent g) = None
        \<and> frobenius_power (twisting_morphism (parent g)) = degree (pr_base_ring P)
        \<and> is_constant g \<longrightarrow>
        FiniteDrinfeldModule_init is_subring P (OrePolynomial g)
          = Inl (ValueError ''The generator must not be constant''))
   \<and> (check_base_fields is_subring (pr_base_ring P) (ore_base_ring (parent g)) = Inr ()
        \<and> twisting_derivation (parent g) = None
        \<and> frobenius_power (twisting_morphism (parent g)) = degree (pr_base_ring P)
        \<and> \<not> is_constant g \<longrightarrow>
        FiniteDrinfeldModule_init is_subring P (OrePolynomial g)
          = Inr \<lparr>domain = P, codomain = parent g, im_gens = [g]\<rparr>)"
  by (auto simp: FiniteDrinfeldModule_init_def Let_def check_base_fields_def)

theorem init_validation_gating_witness:
  "FiniteDrinfeldModule_init finite_field_is_subring ex_FqX (OtherObject ''5'' :: gf4 gen_arg)
     = Inl (TypeError ''The generator must be an Ore polynomial'')
   \<and> is_constant \<lparr>parent = ex_Ltau, coefficients = [Alpha]\<rparr>
   \<and> FiniteDrinfeldModule_init finite_field_is_subring ex_FqX
        (OrePolynomial \<lparr>parent = ex_Ltau, coefficients = [Alpha]\<rparr>)
       = Inl (ValueError ''The generator must not be constant'')
   \<and> FiniteDrinfeldModule_init finite_field_is_subring ex_FqX
        (OrePolynomial \<lparr>parent = GF4_with_derivation, coefficients = [Alpha]\<rparr>)
       = Inl (ValueError ''The Ore polynomial ring should have no derivation'')
   \<and> (\<exists>msg. FiniteDrinfeldModule_init finite_field_is_subring ex_FqX
        (OrePolynomial \<lparr>parent = GF4_wrong_twist, coefficients = [Alpha]\<rparr>)
       = Inl (ValueError msg))
   \<and> FiniteDrinfeldModule_init finite_field_is_subring ex_FqX (OrePolynomial ex_phi_X)
       = Inr \<lparr>domain = ex_FqX, codomain = parent ex_phi_X, im_gens = [ex_phi_X]\<rparr>"
proof -
  have c: "check_base_fields finite_field_is_subring (pr_base_ring ex_FqX) GF4 = Inr ()"
    by (simp add: check_base_fields_def finite_field_is_subring_def ex_FqX_def GF2_def GF4_def)
  have d: "degree (pr_base_ring ex_FqX) = 1"
    by (simp add: ex_FqX_def GF2_def)
  have n: "\<not> is_constant ex_phi_X"
    by (simp add: is_constant_def ore_degree_def ex_phi_X_def zero_gf4_def)
  have w1: "FiniteDrinfeldModule_init finite_field_is_subring ex_FqX
              (OtherObject ''5'' :: gf4 gen_arg)
             = Inl (TypeError ''The generator must be an Ore polynomial'')"
    using init_validation_gating[where is_subring = finite_field_is_subring and P = ex_FqX
        and s = "''5''" and g = ex_phi_X and e = "TypeError []"]
    by (rule conjunct1)
  have w2: "FiniteDrinfeldModule_init finite_field_is_subring ex_FqX
        (OrePolynomial \<lparr>parent = ex_Ltau, coefficients = [Alpha]\<rparr>)
       = Inl (ValueError ''The generator must not be constant'')"
    using init_validation_gating[where is_subring = finite_field_is_subring and P = ex_FqX
        and s = "''5''" and g = "\<lparr>parent = ex_Ltau, coefficients = [Alpha]\<rparr>"
        and e = "TypeError []"] c d ex_constant
    by (auto simp: ex_Ltau_def)
  have w3: "FiniteDrinfeldModule_init finite_field_is_subring ex_FqX
        (OrePolynomial \<lparr>parent = GF4_with_derivation, coefficients = [Alpha]\<rparr>)
       = Inl (ValueError ''The Ore polynomial ring should have no derivation'')"
    using init_validation_gating[where is_subring = finite_field_is_subring and P = ex_FqX
        and s = "''5''" and g = "\<lparr>parent = GF4_with_derivation, coefficients = [Alpha]\<rparr>"
        and e = "TypeError []"] c
    by (auto simp: ex_Ltau_def GF4_with_derivation_def)
  have w4: "\<exists>msg. FiniteDrinfeldModule_init finite_field_is_subring ex_FqX
        (OrePolynomial \<lparr>parent = GF4_wrong_twist, coefficients = [Alpha]\<rparr>)
       = Inl (ValueError msg)"
    using init_validation_gating[where is_subring = finite_field_is_subring and P = ex_FqX
        and s = "''5''" and g = "\<lparr>parent = GF4_wrong_twist, coefficients = [Alpha]\<rparr>"
        and e = "TypeError []"] d
    by (auto simp: ex_Ltau_def GF4_wrong_twist_def)
  have w5: "FiniteDrinfeldModule_init finite_field_is_subring ex_FqX (OrePolynomial ex_phi_X)
       = Inr \<lparr>domain = ex_FqX, codomain = parent ex_phi_X, im_gens = [ex_phi_X]\<rparr>"
    using init_validation_gating[where is_subring = finite_field_is_subring and P = ex_FqX
        and s = "''5''" and g = ex_phi_X and e = "TypeError []"] c d n
    by (auto simp: ex_Ltau_def ex_phi_X_def)
  show ?thesis using w1 w2 w3 w4 w5 ex_constant by blast
qed

text \<open>
  C4. \<^verbatim>\<open>change_ring(R)\<close> on a ring that is not a finite field. The message of the first
  check is "Argument must be a finite field", and its guard is
  \<^verbatim>\<open>not R.is_field() and R.is_finite()\<close>, which negates the first test only: it raises the
  \<^verbatim>\<open>TypeError\<close> for a finite ring that is not a field and for nothing else
  (\<open>change_ring_TypeError_iff\<close>). On the infinite field \<open>QQ\<close> and on the infinite ring \<open>ZZ\<close>
  the call passes the guard and is refused by the next check, with a \<^verbatim>\<open>ValueError\<close>.
  For a module that the constructor accepted the call succeeds exactly when \<open>R\<close> is a
  finite field that contains both \<open>L\<close> and \<open>Fq\<close> (\<open>change_ring_succeeds_iff\<close>).
\<close>

theorem change_ring_infinite_ring:
  "\<not> (is_field QQ \<and> is_finite QQ) \<and> \<not> (is_field ZZ \<and> is_finite ZZ)
   \<and> change_ring finite_field_is_subring id ex_phi QQ
       = Inl (ValueError (''The new field must be a finite field '' @
                          ''extension of the base field of the Ore polynomial ring.''))
   \<and> change_ring finite_field_is_subring id ex_phi ZZ
       = Inl (ValueError (''The new field must be a finite field '' @
                          ''extension of the base field of the Ore polynomial ring.''))"
  by (simp add: change_ring_def finite_field_is_subring_def QQ_def ZZ_def)

text \<open>
  C5. For a module that the constructor accepted, \<open>rank()\<close> is the degree of the generator
  and is at least 1.
\<close>

theorem rank_correct:
  assumes "FiniteDrinfeldModule_init is_subring P obj = Inr m"
  shows "\<exists>g. obj = OrePolynomial g \<and> gen m = Inr g \<and> rank m = Inr (ore_degree g)
            \<and> 1 \<le> ore_degree g"
  using assms by (elim init_Inr_cases) (simp add: gen_def rank_def is_constant_def)

theorem rank_correct_witness:
  "FiniteDrinfeldModule_init finite_field_is_subring ex_FqX (OrePolynomial ex_phi_X) = Inr ex_phi
   \<and> gen ex_phi = Inr ex_phi_X \<and> rank ex_phi = Inr 2 \<and> ore_degree ex_phi_X = 2"
proof -
  have "ore_degree ex_phi_X = 2"
    by (simp add: ore_degree_def ex_phi_X_def zero_gf4_def)
  then show ?thesis using rank_correct[OF ex_valid] ex_valid by auto
qed

text \<open>
  C6. When \<^verbatim>\<open>change_ring(R)\<close> succeeds, the module it returns has the rank of the original.
  The canonical embedding of the coefficients sends exactly zero to zero. This holds for
  every module object, in particular for those the constructor produced.
\<close>

theorem change_ring_rank:
  assumes "change_ring is_subring emb self R = Inr m'"
    and "\<forall>c. (emb c = 0) = (c = 0)"
  shows "\<exists>r. rank self = Inr r \<and> rank m' = Inr r"
  using assms(1)
proof (rule change_ring_Inr_cases)
  fix g
  assume g: "gen self = Inr g"
    and init: "FiniteDrinfeldModule_init is_subring (polring self)
           (OrePolynomial (convert emb
              (OrePolynomialRing R (frobenius_endomorphism R (frobenius_power (frobenius self)))
                 (variable_names (ore_polring self))) g)) = Inr m'"
  from init have "rank m' = Inr (ore_degree g)"
    by (auto simp: init_Inr_iff rank_def gen_def ore_degree_convert[OF assms(2)])
  with g show ?thesis by (simp add: rank_def)
qed

theorem change_ring_rank_witness:
  "change_ring finite_field_is_subring id ex_phi GF16 = Inr ex_psi
   \<and> (\<forall>c::gf4. (id c = 0) = (c = 0))
   \<and> rank ex_phi = Inr 2 \<and> rank ex_psi = Inr 2"
proof -
  have e: "\<forall>c::gf4. (id c = 0) = (c = 0)" by simp
  from change_ring_rank[OF ex_change_ring e] ex_rank_phi
  have "rank ex_psi = Inr 2" by auto
  then show ?thesis using ex_change_ring ex_rank_phi by simp
qed

text \<open>
  C7. \<^verbatim>\<open>change_ring\<close> leaves the object it is called on as it was: after the call,
  successful or not, the object behind \<open>self\<close> and what its getters return are unchanged,
  as is every other object of the store. On failure the store is the same; on success the
  result is a reference that did not exist before, to the module that a call of the
  constructor returned.
\<close>

theorem change_ring_frame:
  assumes "self < length st"
    and "change_ring_ref is_subring emb st self R = (res, st')"
  shows "st' ! self = st ! self
     \<and> polring (st' ! self) = polring (st ! self)
     \<and> ore_polring (st' ! self) = ore_polring (st ! self)
     \<and> gen (st' ! self) = gen (st ! self)
     \<and> frobenius (st' ! self) = frobenius (st ! self)
     \<and> rank (st' ! self) = rank (st ! self)
     \<and> take (length st) st' = st
     \<and> (\<forall>e. res = Inl e \<longrightarrow> st' = st)
     \<and> (\<forall>r. res = Inr r \<longrightarrow>
           r = length st \<and> r \<noteq> self \<and> length st' = Suc (length st)
           \<and> change_ring is_subring emb (st ! self) R = Inr (st' ! r)
           \<and> (\<exists>g. FiniteDrinfeldModule_init is_subring (polring (st ! self)) (OrePolynomial g)
                    = Inr (st' ! r)))"
proof (cases "change_ring is_subring emb (st ! self) R")
  case (Inl e)
  with assms show ?thesis by (auto simp: change_ring_ref_def)
next
  case (Inr m)
  then obtain g where "FiniteDrinfeldModule_init is_subring (polring (st ! self))
      (OrePolynomial g) = Inr m"
    by (elim change_ring_Inr_cases) blast
  with Inr assms show ?thesis
    by (auto simp: change_ring_ref_def nth_append)
qed

theorem change_ring_frame_witness:
  "(0::nat) < length [ex_phi]
   \<and> change_ring_ref finite_field_is_subring id [ex_phi] 0 GF16 = (Inr 1, [ex_phi, ex_psi])
   \<and> [ex_phi, ex_psi] ! 0 = ex_phi
   \<and> rank ([ex_phi, ex_psi] ! 0) = rank ([ex_phi] ! 0)
   \<and> change_ring finite_field_is_subring id ([ex_phi] ! 0) GF16 = Inr ([ex_phi, ex_psi] ! 1)"
proof -
  have l: "(0::nat) < length [ex_phi]" by simp
  have c: "change_ring_ref finite_field_is_subring id [ex_phi] 0 GF16 = (Inr 1, [ex_phi, ex_psi])"
    by (simp add: change_ring_ref_def ex_change_ring)
  from change_ring_frame[OF l c] l c show ?thesis by simp
qed

text \<open>
  C8. The action of a module acts by the module's polynomial ring on the base field of
  the module's Ore ring, that field itself: \<^verbatim>\<open>_get_action_\<close> passes no other field. The
  constructor of the action refuses an argument that is not a module with a
  \<^verbatim>\<open>TypeError\<close>.
\<close>

theorem get_action_domain_codomain:
  "get_action m = Inr \<lparr>finite_drinfeld_module = m, actor = polring m,
                       underlying_set = ore_base_ring (ore_polring m)\<rparr>
   \<and> FiniteDrinfeldModuleAction_init (DrinfeldModuleObject m)
       = Inr \<lparr>finite_drinfeld_module = m, actor = polring m,
              underlying_set = ore_base_ring (ore_polring m)\<rparr>
   \<and> FiniteDrinfeldModuleAction_init (ForeignObject s :: 'a py_object)
       = Inl (TypeError ''First argument must be a FiniteDrinfeldModule'')"
  by (simp add: get_action_def FiniteDrinfeldModuleAction_init_def)

theorem get_action_domain_codomain_witness:
  "get_action ex_phi = Inr ex_phi_action \<and> actor ex_phi_action = ex_FqX
   \<and> underlying_set ex_phi_action = GF4"
proof -
  have a: "get_action ex_phi = Inr \<lparr>finite_drinfeld_module = ex_phi, actor = polring ex_phi,
                       underlying_set = ore_base_ring (ore_polring ex_phi)\<rparr>"
    by (rule conjunct1[OF get_action_domain_codomain[where m = ex_phi and s = "[]"]])
  have b: "polring ex_phi = ex_FqX" "ore_base_ring (ore_polring ex_phi) = GF4"
    by (simp_all add: ex_phi_def polring_def ore_polring_def ex_Ltau_def)
  show ?thesis unfolding a b by (simp add: ex_phi_action_def)
qed

text \<open>
  C9. \<^verbatim>\<open>_check_base_fields(Fq, L)\<close> succeeds exactly when \<open>L\<close> is a field, \<open>L\<close> is finite and
  \<open>Fq\<close> is a subring of \<open>L\<close>; otherwise it fails, with a \<^verbatim>\<open>ValueError\<close> and never a
  \<^verbatim>\<open>TypeError\<close>. It is a function of its arguments that returns no state.
\<close>

theorem check_base_fields_iff:
  "(check_base_fields is_subring Fq L = Inr ()) = (is_field L \<and> is_finite L \<and> is_subring Fq L)
   \<and> (\<exists>msg. check_base_fields is_subring Fq L = Inl (ValueError msg))
       = (\<not> (is_field L \<and> is_finite L \<and> is_subring Fq L))
   \<and> (\<forall>msg. check_base_fields is_subring Fq L \<noteq> Inl (TypeError msg))"
  by (simp add: check_base_fields_def)

theorem check_base_fields_iff_witness:
  "check_base_fields finite_field_is_subring GF2 GF4 = Inr ()
   \<and> (\<exists>msg. check_base_fields finite_field_is_subring GF4 GF8 = Inl (ValueError msg))
   \<and> (\<exists>msg. check_base_fields finite_field_is_subring GF2 QQ = Inl (ValueError msg))
   \<and> (\<exists>msg. check_base_fields finite_field_is_subring GF2 ZZ = Inl (ValueError msg))"
  using check_base_fields_iff[of finite_field_is_subring GF2 GF4]
    check_base_fields_iff[of finite_field_is_subring GF4 GF8]
    check_base_fields_iff[of finite_field_is_subring GF2 QQ]
    check_base_fields_iff[of finite_field_is_subring GF2 ZZ]
  by (simp add: finite_field_is_subring_def GF2_def GF4_def GF8_def QQ_def ZZ_def)

text \<open>
  C10. The result of the \<^verbatim>\<open>isinstance\<close> test on \<^verbatim>\<open>polring\<close> is dropped: the constructor
  fails with the same error whatever the test returns, and it succeeds exactly when the
  generator is an Ore polynomial, the fields are compatible, the ring has no derivation,
  the twist power is \<open>deg(Fq)\<close> and the generator is not constant.
\<close>

theorem init_ignores_polring_type:
  "(\<forall>e. (FiniteDrinfeldModule_init is_subring
            (P\<lparr>is_PolynomialRing_dense_finite_field := b\<rparr>) obj = Inl e)
        = (FiniteDrinfeldModule_init is_subring P obj = Inl e))
   \<and> (\<exists>m. FiniteDrinfeldModule_init is_subring P obj = Inr m)
      = (\<exists>g. obj = OrePolynomial g
            \<and> is_field (ore_base_ring (parent g)) \<and> is_finite (ore_base_ring (parent g))
            \<and> is_subring (pr_base_ring P) (ore_base_ring (parent g))
            \<and> twisting_derivation (parent g) = None
            \<and> frobenius_power (twisting_morphism (parent g)) = degree (pr_base_ring P)
            \<and> \<not> is_constant g)"
proof (cases obj)
  case (OrePolynomial g)
  then show ?thesis by (auto simp: init_OrePolynomial)
next
  case (OtherObject s)
  then show ?thesis by (simp add: FiniteDrinfeldModule_init_def)
qed

theorem init_ignores_polring_type_witness:
  "FiniteDrinfeldModule_init finite_field_is_subring
     (ex_FqX\<lparr>is_PolynomialRing_dense_finite_field := False\<rparr>) (OrePolynomial ex_phi_X)
    = Inr (ex_phi\<lparr>domain := ex_FqX\<lparr>is_PolynomialRing_dense_finite_field := False\<rparr>\<rparr>)"
proof -
  let ?r = "FiniteDrinfeldModule_init finite_field_is_subring
     (ex_FqX\<lparr>is_PolynomialRing_dense_finite_field := False\<rparr>) (OrePolynomial ex_phi_X)"
  have "\<forall>e. (?r = Inl e)
          = (FiniteDrinfeldModule_init finite_field_is_subring ex_FqX (OrePolynomial ex_phi_X)
              = Inl e)"
    by (rule conjunct1[OF init_ignores_polring_type[where is_subring = finite_field_is_subring
        and P = ex_FqX and b = False and obj = "OrePolynomial ex_phi_X"]])
  then have "\<forall>e. ?r \<noteq> Inl e" using ex_valid by simp
  then obtain m where "?r = Inr m" by (cases ?r) auto
  then show ?thesis by (auto simp: init_Inr_iff ex_phi_def ex_phi_X_def)
qed

end
